theory Spec2Isabelle
  imports Complex_Main
begin

section \<open>Geometry containers of \<^verbatim>\<open>geomdl/multi.py\<close>\<close>

text \<open>
  The module defines \<^verbatim>\<open>AbstractContainer\<close> and its three subclasses
  \<^verbatim>\<open>CurveContainer\<close>, \<^verbatim>\<open>SurfaceContainer\<close> and \<^verbatim>\<open>VolumeContainer\<close>.
  A container is a mutable Python object; \<^verbatim>\<open>add\<close> and \<^verbatim>\<open>__add__\<close> receive
  other containers by reference. The embedding therefore keeps the containers in an
  explicit store indexed by references, and every method takes the store (or the
  receiver's own state, when it touches nothing else) and returns the updated one.
\<close>

subsection \<open>Data model\<close>

type_synonym ref = nat

type_synonym point = "real list"

text \<open>
  A coordinate extent of a bounding box: the axis it belongs to and the lower and
  upper bound on that axis.
\<close>

record extent =
  axis :: nat
  lower :: real
  upper :: real

datatype geometry_kind = CurveLike | SurfaceLike | VolumeLike

text \<open>
  An instance of \<^verbatim>\<open>SplineGeometry\<close>, as far as this module reads it: its kind and the
  values of its \<^verbatim>\<open>evalpts\<close> and \<^verbatim>\<open>bbox\<close> properties. The module never writes to a
  geometry, so a geometry is a value.
\<close>

record geometry =
  g_kind :: geometry_kind
  g_evalpts :: "point list"
  g_bbox :: "extent list"

datatype container_class = CurveContainer | SurfaceContainer | VolumeContainer

text \<open>
  The state of a container object: its class, \<^verbatim>\<open>self._geoms\<close>,
  \<^verbatim>\<open>self._cache['evalpts']\<close> and \<^verbatim>\<open>self._iter_index\<close>.
\<close>

record container =
  cls :: container_class
  geoms :: "geometry list"
  cache_evalpts :: "point list"
  iter_index :: nat

type_synonym heap = "ref \<Rightarrow> container"

text \<open>
  What a caller can pass to \<^verbatim>\<open>add\<close> and \<^verbatim>\<open>__add__\<close>: a spline geometry, a container
  (by reference), an instance of one of the types of \<^verbatim>\<open>GeomdlTypeSequence\<close> (a list or
  tuple, with its items), or any other object. A sequence is a value of its own: it is
  not the private \<^verbatim>\<open>_geoms\<close> list of a container.
\<close>

datatype pyobj =
    Spline geometry
  | ContainerRef ref
  | Sequence "pyobj list"
  | Other

text \<open>
  \<^verbatim>\<open>GeomdlError\<close> is the spec's TypeMismatch, \<^verbatim>\<open>IndexError\<close> its OutOfRange.
\<close>

datatype error = GeomdlError | IndexError | StopIteration | EmptyContainer

subsection \<open>Indexing and length\<close>

text \<open>
  Python's \<^verbatim>\<open>xs[i]\<close> on a list with an integer index: a negative index counts from the
  end, and an index outside the list raises \<^verbatim>\<open>IndexError\<close>.
\<close>

definition list_getitem :: "'a list \<Rightarrow> int \<Rightarrow> error + 'a" where
  "list_getitem xs i =
     (if 0 \<le> i then
        (if i < int (length xs) then Inr (xs ! nat i) else Inl IndexError)
      else
        (if 0 \<le> i + int (length xs) then Inr (xs ! nat (i + int (length xs)))
         else Inl IndexError))"

text \<open>\<^verbatim>\<open>__getitem__\<close>: \<^verbatim>\<open>return self._geoms[index]\<close>, for an integer index.\<close>

definition getitem :: "container \<Rightarrow> int \<Rightarrow> error + geometry" where
  "getitem c index = list_getitem (geoms c) index"

text \<open>\<^verbatim>\<open>__len__\<close>: \<^verbatim>\<open>return len(self._geoms)\<close>.\<close>

definition len :: "container \<Rightarrow> nat" where
  "len c = length (geoms c)"

subsection \<open>Iteration\<close>

text \<open>
  Modelled from the spec: \<^verbatim>\<open>__iter__\<close> is inherited from \<^verbatim>\<open>Geometry\<close>, which is not
  part of the module. The spec describes the cursor as a "transient iteration position,
  reset at the start of each full traversal".
\<close>

definition container_iter :: "container \<Rightarrow> container" where
  "container_iter c = c\<lparr>iter_index := 0\<rparr>"

text \<open>
  \<^verbatim>\<open>__next__\<close>: read \<^verbatim>\<open>self._geoms[self._iter_index]\<close>, turn an \<^verbatim>\<open>IndexError\<close> into
  \<^verbatim>\<open>StopIteration\<close>, otherwise advance the cursor and return the element. The cursor
  is never negative.
\<close>

definition container_next :: "container \<Rightarrow> (error + geometry) \<times> container" where
  "container_next c =
     (case list_getitem (geoms c) (int (iter_index c)) of
        Inl e \<Rightarrow> (Inl StopIteration, c)
      | Inr result \<Rightarrow> (Inr result, c\<lparr>iter_index := iter_index c + 1\<rparr>))"

text \<open>
  A full forward traversal (\<^verbatim>\<open>for g in container\<close>, collecting what is produced):
  \<^verbatim>\<open>__iter__\<close> once, then \<^verbatim>\<open>__next__\<close> until it raises \<^verbatim>\<open>StopIteration\<close>.
\<close>

function iterate_from :: "container \<Rightarrow> geometry list \<Rightarrow> geometry list \<times> container" where
  "iterate_from c acc =
     (case container_next c of
        (Inl e, c') \<Rightarrow> (acc, c')
      | (Inr g, c') \<Rightarrow> iterate_from c' (acc @ [g]))"
  by pat_completeness auto
termination
  by (relation "measure (\<lambda>(c, acc). length (geoms c) - iter_index c)")
     (auto simp: container_next_def list_getitem_def split: if_splits)

declare iterate_from.simps [simp del]

definition iterate :: "container \<Rightarrow> geometry list \<times> container" where
  "iterate c = iterate_from (container_iter c) []"

text \<open>\<^verbatim>\<open>__reversed__\<close>: \<^verbatim>\<open>reversed(self._geoms)\<close>, read to its end. It touches no state.\<close>

definition container_reversed :: "container \<Rightarrow> geometry list" where
  "container_reversed c = rev (geoms c)"

subsection \<open>Evaluated points\<close>

text \<open>
  Modelled from the spec: \<^verbatim>\<open>reset\<close> is inherited from \<^verbatim>\<open>Geometry\<close>, which is not part
  of the module. The spec says of the call at the end of \<^verbatim>\<open>add\<close> that the evalpts cache
  "is invalidated (cleared)"; the constructor registers \<^verbatim>\<open>evalpts\<close> as the only cache
  slot, with an empty list as its cleared value.
\<close>

definition reset :: "container \<Rightarrow> container" where
  "reset c = c\<lparr>cache_evalpts := []\<rparr>"

text \<open>
  The guard of the \<^verbatim>\<open>evalpts\<close> property, \<^verbatim>\<open>not self._cache['evalpts']\<close>: an empty
  list is how the code recognises a cache that has to be computed.
\<close>

definition cache_empty :: "container \<Rightarrow> bool" where
  "cache_empty c = (cache_evalpts c = [])"

text \<open>
  The \<^verbatim>\<open>evalpts\<close> property: when the guard holds, every element's evaluated points are
  appended to the cache list in element order; the cache list is returned.
\<close>

definition evalpts :: "container \<Rightarrow> point list \<times> container" where
  "evalpts c =
     (let c' = (if cache_empty c
                then c\<lparr>cache_evalpts :=
                         foldl (\<lambda>cache g. cache @ g_evalpts g) (cache_evalpts c) (geoms c)\<rparr>
                else c)
      in (cache_evalpts c', c'))"

text \<open>
  Reading \<^verbatim>\<open>g.evalpts\<close> is a call into the element \<open>g\<close>. These are the elements that a
  call of the container's \<^verbatim>\<open>evalpts\<close> property reads, in order: when the guard holds,
  the loop \<^verbatim>\<open>for g in self._geoms\<close> reads every element once; otherwise the loop is
  not entered. A call is a cache hit, with no recomputation, when it reads no element.
\<close>

definition evalpts_reads :: "container \<Rightarrow> geometry list" where
  "evalpts_reads c = (if cache_empty c then geoms c else [])"

subsection \<open>Bounding box\<close>

text \<open>
  Modelled from the spec: \<^verbatim>\<open>utilities.evaluate_bounding_box\<close> is not part of the module.
  The spec gives an element's bounding box as a "sequence of (min,max) extents, one pair
  per axis", and says that the container "derives a single enclosing box by taking, per
  axis, the minimum of all lower bounds and the maximum of all upper bounds across the
  pooled extents". The axes of the result are the axes that occur in the pool. What
  happens on an empty pool is left to the implementer by the spec (an error or a defined
  degenerate box), so it is the parameter \<open>on_empty\<close>.
\<close>

definition pooled_lowers :: "extent list \<Rightarrow> nat \<Rightarrow> real list" where
  "pooled_lowers pool a = map lower (filter (\<lambda>e. axis e = a) pool)"

definition pooled_uppers :: "extent list \<Rightarrow> nat \<Rightarrow> real list" where
  "pooled_uppers pool a = map upper (filter (\<lambda>e. axis e = a) pool)"

definition evaluate_bounding_box ::
  "(error + extent list) \<Rightarrow> extent list \<Rightarrow> error + extent list" where
  "evaluate_bounding_box on_empty pool =
     (if pool = [] then on_empty
      else Inr (map (\<lambda>a. \<lparr>axis = a,
                           lower = Min (set (pooled_lowers pool a)),
                           upper = Max (set (pooled_uppers pool a))\<rparr>)
                    (remdups (map axis pool))))"

text \<open>
  The \<^verbatim>\<open>bbox\<close> property: \<^verbatim>\<open>all_box += list(g.bbox)\<close> for every element, then
  \<^verbatim>\<open>utilities.evaluate_bounding_box(all_box)\<close>. Nothing is cached.
\<close>

definition bbox :: "(error + extent list) \<Rightarrow> container \<Rightarrow> error + extent list" where
  "bbox on_empty c =
     evaluate_bounding_box on_empty (foldl (\<lambda>all_box g. all_box @ g_bbox g) [] (geoms c))"

subsection \<open>Insertion and merge\<close>

text \<open>
  The second branch of \<^verbatim>\<open>add\<close> followed by the reset that ends it: what
  \<^verbatim>\<open>self.add(g)\<close> does when \<open>g\<close> is a spline geometry.
\<close>

definition add_spline :: "heap \<Rightarrow> ref \<Rightarrow> geometry \<Rightarrow> heap" where
  "add_spline h self g = h(self := reset ((h self)\<lparr>geoms := geoms (h self) @ [g]\<rparr>))"

text \<open>
  The loop \<^verbatim>\<open>for g in geom: self.add(g)\<close> when \<open>geom\<close> is the container at reference
  \<open>r\<close>, after \<^verbatim>\<open>__iter__\<close>: each \<^verbatim>\<open>__next__\<close> reads and advances the cursor of \<open>r\<close> in
  the store, and the loop ends when it raises \<^verbatim>\<open>StopIteration\<close>. The elements of a
  container are spline geometries, so each \<^verbatim>\<open>self.add(g)\<close> appends and resets. When
  \<open>r\<close> is the receiver itself and holds an element, the cursor never reaches the end of
  the growing list: the loop does not return, which is the value \<open>None\<close>.
\<close>

partial_function (option) add_from :: "heap \<Rightarrow> ref \<Rightarrow> ref \<Rightarrow> heap option" where
  "add_from h self r =
     (case container_next (h r) of
        (Inl e, c') \<Rightarrow> Some (h(r := c'))
      | (Inr g, c') \<Rightarrow> add_from (add_spline (h(r := c')) self g) self r)"

text \<open>
  \<^verbatim>\<open>add\<close>, in the order of its branches: a container of the receiver's class or a
  sequence is iterated and every item added in turn; a spline geometry is appended;
  anything else (a container of another class is neither a sequence nor a spline
  geometry) raises \<^verbatim>\<open>GeomdlError\<close>. The reset is reached only when no branch raised.
  The result is the outcome of the call together with the store it leaves behind, or
  \<open>None\<close> when the call does not return. \<open>add_each\<close> is the loop over the items of a
  sequence; an exception raised by an item leaves the loop and the enclosing calls.
\<close>

fun add :: "heap \<Rightarrow> ref \<Rightarrow> pyobj \<Rightarrow> ((error + unit) \<times> heap) option"
  and add_each :: "heap \<Rightarrow> ref \<Rightarrow> pyobj list \<Rightarrow> ((error + unit) \<times> heap) option" where
  "add h self (ContainerRef r) =
     (if cls (h r) = cls (h self) then
        (case add_from (h(r := container_iter (h r))) self r of
           None \<Rightarrow> None
         | Some h' \<Rightarrow> Some (Inr (), h'(self := reset (h' self))))
      else Some (Inl GeomdlError, h))"
| "add h self (Sequence xs) =
     (case add_each h self xs of
        None \<Rightarrow> None
      | Some (Inl e, h') \<Rightarrow> Some (Inl e, h')
      | Some (Inr u, h') \<Rightarrow> Some (Inr (), h'(self := reset (h' self))))"
| "add h self (Spline g) = Some (Inr (), add_spline h self g)"
| "add h self Other = Some (Inl GeomdlError, h)"
| "add_each h self [] = Some (Inr (), h)"
| "add_each h self (x # xs) =
     (case add h self x of
        None \<Rightarrow> None
      | Some (Inl e, h') \<Rightarrow> Some (Inl e, h')
      | Some (Inr u, h') \<Rightarrow> add_each h' self xs)"

text \<open>
  \<^verbatim>\<open>__init__\<close>, for the object under construction at reference \<open>self\<close> and of class
  \<open>k\<close>: the cache slot \<^verbatim>\<open>evalpts\<close> and \<^verbatim>\<open>_geoms\<close> start as empty lists, then every
  positional argument is added in order. The first value of the cursor is set by the
  base class; \<^verbatim>\<open>__iter__\<close> overwrites it before it is read.
\<close>

definition init ::
  "heap \<Rightarrow> ref \<Rightarrow> container_class \<Rightarrow> pyobj list \<Rightarrow> ((error + unit) \<times> heap) option" where
  "init h self k args =
     add_each (h(self := \<lparr>cls = k, geoms = [], cache_evalpts = [], iter_index = 0\<rparr>)) self args"

text \<open>
  \<^verbatim>\<open>isinstance(other, self.__class__)\<close>: the three container classes are siblings, so
  an object is an instance of the receiver's class exactly when it is a container of
  that very class.
\<close>

definition isinstance_container :: "heap \<Rightarrow> pyobj \<Rightarrow> container_class \<Rightarrow> bool" where
  "isinstance_container h x k = (case x of ContainerRef r \<Rightarrow> cls (h r) = k | _ \<Rightarrow> False)"

text \<open>
  \<^verbatim>\<open>__add__\<close>: raise \<^verbatim>\<open>GeomdlError\<close> unless \<open>other\<close> is a container of the receiver's
  class, otherwise \<^verbatim>\<open>self.add(other)\<close> and \<^verbatim>\<open>return self\<close>: the value returned is the
  reference of the receiver.
\<close>

definition container_add :: "heap \<Rightarrow> ref \<Rightarrow> pyobj \<Rightarrow> ((error + ref) \<times> heap) option" where
  "container_add h self other =
     (if \<not> isinstance_container h other (cls (h self)) then Some (Inl GeomdlError, h)
      else (case add h self other of
              None \<Rightarrow> None
            | Some (Inl e, h') \<Rightarrow> Some (Inl e, h')
            | Some (Inr u, h') \<Rightarrow> Some (Inr self, h')))"

subsection \<open>Flattening, as the spec words it\<close>

text \<open>
  The leaf geometries of an argument of \<^verbatim>\<open>add\<close>, "nested containers/sequences fully
  flattened", in order: a geometry is its own leaf, a container contributes its
  elements, a sequence the leaves of its items.
\<close>

fun leaves :: "heap \<Rightarrow> pyobj \<Rightarrow> geometry list" where
  "leaves h (Spline g) = [g]"
| "leaves h (ContainerRef r) = geoms (h r)"
| "leaves h (Sequence xs) = concat (map (leaves h) xs)"
| "leaves h Other = []"

text \<open>
  An argument that no branch of \<^verbatim>\<open>add\<close> rejects, on any level of nesting: a spline
  geometry, a container of the receiver's class, or a sequence of such arguments.
\<close>

fun acceptable :: "heap \<Rightarrow> ref \<Rightarrow> pyobj \<Rightarrow> bool" where
  "acceptable h self (Spline g) = True"
| "acceptable h self (ContainerRef r) = (cls (h r) = cls (h self))"
| "acceptable h self (Sequence xs) = list_all (acceptable h self) xs"
| "acceptable h self Other = False"

text \<open>
  What a rejected argument has left in the receiver when the exception is raised: the
  leaves of the items that come before the first rejected item, on every level of
  nesting. An argument that is not a sequence is rejected before anything is appended.
\<close>

fun appended_before_raise :: "heap \<Rightarrow> ref \<Rightarrow> pyobj \<Rightarrow> geometry list"
  and appended_before_raise_each :: "heap \<Rightarrow> ref \<Rightarrow> pyobj list \<Rightarrow> geometry list" where
  "appended_before_raise h self (Sequence xs) = appended_before_raise_each h self xs"
| "appended_before_raise h self (Spline g) = []"
| "appended_before_raise h self (ContainerRef r) = []"
| "appended_before_raise h self Other = []"
| "appended_before_raise_each h self [] = []"
| "appended_before_raise_each h self (x # xs) =
     (if acceptable h self x then leaves h x @ appended_before_raise_each h self xs
      else appended_before_raise h self x)"

text \<open>
  Whether a nested call of \<^verbatim>\<open>add\<close> has returned, and so reset the cache, before a
  rejected argument raises: it has as soon as one item comes before the first rejected
  item, on any level of nesting.
\<close>

fun reset_before_raise :: "heap \<Rightarrow> ref \<Rightarrow> pyobj \<Rightarrow> bool"
  and reset_before_raise_each :: "heap \<Rightarrow> ref \<Rightarrow> pyobj list \<Rightarrow> bool" where
  "reset_before_raise h self (Sequence xs) = reset_before_raise_each h self xs"
| "reset_before_raise h self (Spline g) = False"
| "reset_before_raise h self (ContainerRef r) = False"
| "reset_before_raise h self Other = False"
| "reset_before_raise_each h self [] = False"
| "reset_before_raise_each h self (x # xs) =
     (if acceptable h self x then True else reset_before_raise h self x)"

text \<open>
  The relation between the store \<open>h0\<close> in which a call of \<^verbatim>\<open>add\<close> on the receiver
  \<open>self\<close> started and a store \<open>h\<close> reached inside it: classes are fixed, the other
  containers keep their elements, and the receiver only grows.
\<close>

definition agree :: "ref \<Rightarrow> heap \<Rightarrow> heap \<Rightarrow> bool" where
  "agree self h0 h \<longleftrightarrow>
     (\<forall>r. cls (h r) = cls (h0 r)) \<and>
     (\<forall>r. r \<noteq> self \<longrightarrow> geoms (h r) = geoms (h0 r)) \<and>
     (geoms (h self) = [] \<longrightarrow> geoms (h0 self) = [])"

subsection \<open>Example objects\<close>

definition curve_a :: geometry where
  "curve_a = \<lparr>g_kind = CurveLike, g_evalpts = [[0, 0], [1, 0]],
              g_bbox = [\<lparr>axis = 0, lower = 0, upper = 1\<rparr>, \<lparr>axis = 1, lower = 0, upper = 0\<rparr>]\<rparr>"

definition curve_b :: geometry where
  "curve_b = \<lparr>g_kind = CurveLike, g_evalpts = [[2, 2]],
              g_bbox = [\<lparr>axis = 0, lower = 2, upper = 2\<rparr>, \<lparr>axis = 1, lower = 2, upper = 2\<rparr>]\<rparr>"

definition surface_a :: geometry where
  "surface_a = \<lparr>g_kind = SurfaceLike, g_evalpts = [[0, 0, 5]],
                g_bbox = [\<lparr>axis = 0, lower = 0, upper = 3\<rparr>, \<lparr>axis = 1, lower = - 1, upper = 1\<rparr>,
                          \<lparr>axis = 2, lower = 5, upper = 5\<rparr>]\<rparr>"

definition two_curves :: container where
  "two_curves = \<lparr>cls = CurveContainer, geoms = [curve_a, curve_b],
                 cache_evalpts = [], iter_index = 0\<rparr>"

definition no_curves :: container where
  "no_curves = \<lparr>cls = CurveContainer, geoms = [], cache_evalpts = [], iter_index = 0\<rparr>"

text \<open>
  A curve whose evaluated-point sequence is empty, a container that holds it alone, and a
  container whose cache holds another sequence than its elements give.
\<close>

definition blank_curve :: geometry where
  "blank_curve = \<lparr>g_kind = CurveLike, g_evalpts = [],
                  g_bbox = [\<lparr>axis = 0, lower = 0, upper = 0\<rparr>]\<rparr>"

definition one_blank_curve :: container where
  "one_blank_curve = \<lparr>cls = CurveContainer, geoms = [blank_curve],
                      cache_evalpts = [], iter_index = 0\<rparr>"

definition stale_curves :: container where
  "stale_curves = \<lparr>cls = CurveContainer, geoms = [curve_a, curve_b],
                   cache_evalpts = [[9, 9]], iter_index = 0\<rparr>"

definition one_surface :: container where
  "one_surface = \<lparr>cls = SurfaceContainer, geoms = [surface_a],
                  cache_evalpts = [], iter_index = 0\<rparr>"

text \<open>
  A store with two curve containers, at references 0 and 1, the first with its cache
  filled; every other reference holds an empty surface container.
\<close>

definition example_store :: heap where
  "example_store =
     (\<lambda>r. \<lparr>cls = SurfaceContainer, geoms = [], cache_evalpts = [], iter_index = 0\<rparr>)
       (0 := \<lparr>cls = CurveContainer, geoms = [curve_a],
              cache_evalpts = [[0, 0], [1, 0]], iter_index = 0\<rparr>,
        1 := \<lparr>cls = CurveContainer, geoms = [curve_b, curve_a],
              cache_evalpts = [], iter_index = 0\<rparr>)"

section \<open>Properties\<close>

subsection \<open>Auxiliary facts\<close>

lemma list_getitem_nat:
  "list_getitem xs (int i) = (if i < length xs then Inr (xs ! i) else Inl IndexError)"
  by (simp add: list_getitem_def)

lemma container_next_eq:
  "container_next c =
     (if iter_index c < length (geoms c)
      then (Inr (geoms c ! iter_index c), c\<lparr>iter_index := Suc (iter_index c)\<rparr>)
      else (Inl StopIteration, c))"
  by (simp add: container_next_def list_getitem_nat)

lemma iterate_from_eq:
  "iterate_from c acc =
     (acc @ drop (iter_index c) (geoms c),
      if iter_index c < length (geoms c) then c\<lparr>iter_index := length (geoms c)\<rparr> else c)"
proof (induction c acc rule: iterate_from.induct)
  case (1 c acc)
  show ?case
  proof (cases "iter_index c < length (geoms c)")
    case True
    then have "iterate_from c acc
        = iterate_from (c\<lparr>iter_index := Suc (iter_index c)\<rparr>) (acc @ [geoms c ! iter_index c])"
      by (subst iterate_from.simps) (simp add: container_next_eq)
    also have "\<dots> = ((acc @ [geoms c ! iter_index c]) @ drop (Suc (iter_index c)) (geoms c),
        c\<lparr>iter_index := length (geoms c)\<rparr>)"
      using True "1.IH" [of "Inr (geoms c ! iter_index c)" "c\<lparr>iter_index := Suc (iter_index c)\<rparr>"
          "geoms c ! iter_index c"]
      by (auto simp: container_next_eq)
    finally show ?thesis
      using True by (simp add: Cons_nth_drop_Suc)
  next
    case False
    then show ?thesis
      by (subst iterate_from.simps) (simp add: container_next_eq)
  qed
qed

text \<open>
  The loop over a container argument, in closed form: it stops at once when the cursor
  is at the end, it appends the remaining elements of another container, and it does
  not return on the receiver itself while the cursor is inside the list.
\<close>

lemma add_from_stop:
  "\<not> iter_index (h r) < length (geoms (h r)) \<Longrightarrow> add_from h self r = Some h"
  by (subst add_from.simps) (simp add: container_next_eq)

lemma add_from_step:
  "iter_index (h r) < length (geoms (h r)) \<Longrightarrow>
   add_from h self r =
     add_from (add_spline (h(r := (h r)\<lparr>iter_index := Suc (iter_index (h r))\<rparr>)) self
                 (geoms (h r) ! iter_index (h r))) self r"
  by (subst add_from.simps) (simp add: container_next_eq)

lemma add_from_other:
  "r \<noteq> self \<Longrightarrow> iter_index (h r) < length (geoms (h r)) \<Longrightarrow>
   add_from h self r =
     Some (h(r := (h r)\<lparr>iter_index := length (geoms (h r))\<rparr>,
             self := (h self)\<lparr>geoms := geoms (h self) @ drop (iter_index (h r)) (geoms (h r)),
                             cache_evalpts := []\<rparr>))"
proof (induction "length (geoms (h r)) - iter_index (h r)" arbitrary: h)
  case 0
  then show ?case by simp
next
  case (Suc n)
  let ?i = "iter_index (h r)"
  let ?h1 = "add_spline (h(r := (h r)\<lparr>iter_index := Suc ?i\<rparr>)) self (geoms (h r) ! ?i)"
  have step: "add_from h self r = add_from ?h1 self r"
    using Suc.prems by (simp add: add_from_step)
  have r1: "?h1 r = (h r)\<lparr>iter_index := Suc ?i\<rparr>"
    using Suc.prems by (simp add: add_spline_def)
  have s1: "?h1 self = (h self)\<lparr>geoms := geoms (h self) @ [geoms (h r) ! ?i], cache_evalpts := []\<rparr>"
    using Suc.prems by (simp add: add_spline_def reset_def)
  show ?case
  proof (cases "Suc ?i < length (geoms (h r))")
    case True
    have "n = length (geoms (?h1 r)) - iter_index (?h1 r)"
      using Suc.hyps(2) by (simp add: r1)
    then have "add_from ?h1 self r =
        Some (?h1(r := (?h1 r)\<lparr>iter_index := length (geoms (?h1 r))\<rparr>,
             self := (?h1 self)\<lparr>geoms := geoms (?h1 self) @ drop (iter_index (?h1 r)) (geoms (?h1 r)),
                             cache_evalpts := []\<rparr>))"
      using Suc.hyps(1) [of ?h1] Suc.prems(1) True by (simp add: r1)
    then show ?thesis
      using step Suc.prems True
      by (simp add: r1 s1 add_spline_def reset_def Cons_nth_drop_Suc fun_upd_twist)
  next
    case False
    then have "add_from ?h1 self r = Some ?h1"
      by (intro add_from_stop) (simp add: r1)
    moreover have "drop ?i (geoms (h r)) = [geoms (h r) ! ?i]"
      using False Suc.prems(2) by (metis Cons_nth_drop_Suc drop_all not_less)
    moreover have "length (geoms (h r)) = Suc ?i"
      using False Suc.prems(2) by simp
    ultimately show ?thesis
      using step Suc.prems
      by (simp add: add_spline_def reset_def fun_upd_twist)
  qed
qed

lemma add_from_self_diverges_aux:
  assumes ret: "add_from h self r = Some y"
  shows "r = self \<longrightarrow> \<not> iter_index (h self) < length (geoms (h self))"
proof (rule add_from.raw_induct
    [where P = "\<lambda>h self r y. r = self \<longrightarrow> \<not> iter_index (h self) < length (geoms (h self))",
      OF _ ret], intro impI notI)
  fix f h self r ha
  assume IH: "\<And>h self r y. f h self r = Some y \<Longrightarrow>
                r = self \<longrightarrow> \<not> iter_index (h self) < length (geoms (h self))"
    and body: "(case container_next (h r) of
                  (Inl e, c') \<Rightarrow> Some (h(r := c'))
                | (Inr g, c') \<Rightarrow> f (add_spline (h(r := c')) self g) self r) = Some ha"
    and eq: "r = self"
    and lt: "iter_index (h self) < length (geoms (h self))"
  let ?h1 = "add_spline (h(self := (h self)\<lparr>iter_index := Suc (iter_index (h self))\<rparr>)) self
               (geoms (h self) ! iter_index (h self))"
  from body eq lt have "f ?h1 self self = Some ha"
    by (simp add: container_next_eq)
  from IH [OF this] show False
    using lt by (simp add: add_spline_def reset_def)
qed

lemma add_from_self_diverges:
  "add_from h self self = Some y \<Longrightarrow> \<not> iter_index (h self) < length (geoms (h self))"
  using add_from_self_diverges_aux [of h self self y] by simp

lemma add_ContainerRef_other:
  assumes "r \<noteq> self" and "cls (h r) = cls (h self)"
  shows "add h self (ContainerRef r) =
           Some (Inr (), h(r := (h r)\<lparr>iter_index := length (geoms (h r))\<rparr>,
                           self := (h self)\<lparr>geoms := geoms (h self) @ geoms (h r),
                                           cache_evalpts := []\<rparr>))"
proof (cases "geoms (h r) = []")
  case True
  let ?h0 = "h(r := container_iter (h r))"
  have "add_from ?h0 self r = Some ?h0"
    using True by (intro add_from_stop) (simp add: container_iter_def)
  then show ?thesis
    using assms True by (simp add: container_iter_def reset_def fun_upd_twist)
next
  case False
  let ?h0 = "h(r := container_iter (h r))"
  have "add_from ?h0 self r =
     Some (?h0(r := (?h0 r)\<lparr>iter_index := length (geoms (?h0 r))\<rparr>,
             self := (?h0 self)\<lparr>geoms := geoms (?h0 self) @ drop (iter_index (?h0 r)) (geoms (?h0 r)),
                             cache_evalpts := []\<rparr>))"
    using False assms(1) by (intro add_from_other) (simp_all add: container_iter_def)
  then show ?thesis
    using assms False by (simp add: container_iter_def reset_def fun_upd_twist)
qed

lemma add_ContainerRef_self:
  "add h self (ContainerRef self) =
     (if geoms (h self) = [] then
        Some (Inr (), h(self := (h self)\<lparr>iter_index := 0, cache_evalpts := []\<rparr>))
      else None)"
proof (cases "geoms (h self) = []")
  case True
  let ?h0 = "h(self := container_iter (h self))"
  have "add_from ?h0 self self = Some ?h0"
    using True by (intro add_from_stop) (simp add: container_iter_def)
  then show ?thesis
    using True by (simp add: container_iter_def reset_def)
next
  case False
  let ?h0 = "h(self := container_iter (h self))"
  have "add_from ?h0 self self = None"
  proof (cases "add_from ?h0 self self")
    case (Some y)
    from add_from_self_diverges [OF this] False show ?thesis
      by (simp add: container_iter_def)
  qed simp
  then show ?thesis
    using False by simp
qed

text \<open>
  The effect of \<^verbatim>\<open>add\<close> and of the loop over a sequence, for both outcomes, relative to
  the store \<open>h0\<close> in which the outermost call started.
\<close>

lemma agree_refl:
  "agree s h h"
  by (simp add: agree_def)


lemma add_effect:
  "agree s h0 h \<Longrightarrow> add h s x = Some (res, h') \<Longrightarrow>
     agree s h0 h' \<and>
     (\<forall>r. r \<noteq> s \<longrightarrow> cache_evalpts (h' r) = cache_evalpts (h r)) \<and>
     (case res of
        Inr u \<Rightarrow> acceptable h0 s x \<and> geoms (h' s) = geoms (h s) @ leaves h0 x \<and>
                 cache_evalpts (h' s) = []
      | Inl e \<Rightarrow> e = GeomdlError \<and> \<not> acceptable h0 s x \<and>
                 geoms (h' s) = geoms (h s) @ appended_before_raise h0 s x \<and>
                 cache_evalpts (h' s) =
                   (if reset_before_raise h0 s x then [] else cache_evalpts (h s)))"
  and add_each_effect:
  "agree s h0 h \<Longrightarrow> add_each h s xs = Some (res, h') \<Longrightarrow>
     agree s h0 h' \<and>
     (\<forall>r. r \<noteq> s \<longrightarrow> cache_evalpts (h' r) = cache_evalpts (h r)) \<and>
     (case res of
        Inr u \<Rightarrow> list_all (acceptable h0 s) xs \<and>
                 geoms (h' s) = geoms (h s) @ concat (map (leaves h0) xs) \<and>
                 cache_evalpts (h' s) = (if xs = [] then cache_evalpts (h s) else [])
      | Inl e \<Rightarrow> e = GeomdlError \<and> \<not> list_all (acceptable h0 s) xs \<and>
                 geoms (h' s) = geoms (h s) @ appended_before_raise_each h0 s xs \<and>
                 cache_evalpts (h' s) =
                   (if reset_before_raise_each h0 s xs then [] else cache_evalpts (h s)))"
proof (induction h s x and h s xs arbitrary: h0 res h' and h0 res h' rule: add_add_each.induct)
  case (1 h self r)
  show ?case
  proof (cases "cls (h r) = cls (h self)")
    case False
    with 1 show ?thesis
      by (auto simp: agree_def)
  next
    case same: True
    show ?thesis
    proof (cases "r = self")
      case True
      with 1 same show ?thesis
        unfolding True add_ContainerRef_self
        by (auto simp: agree_def split: if_splits)
    next
      case False
      from 1(2) show ?thesis
        unfolding add_ContainerRef_other [OF False same]
        using 1(1) False same by (auto simp: agree_def)
    qed
  qed
next
  case (2 h self xs)
  show ?case
  proof (cases "add_each h self xs")
    case None
    with 2(3) show ?thesis by simp
  next
    case (Some p)
    obtain res1 h1 where p: "p = (res1, h1)" by (cases p)
    note IH = 2(1) [OF 2(2) Some [unfolded p]]
    show ?thesis
    proof (cases res1)
      case (Inl e)
      with 2(3) Some p IH show ?thesis
        by auto
    next
      case (Inr u)
      with 2(3) Some p IH show ?thesis
        by (auto simp: agree_def reset_def)
    qed
  qed
next
  case (3 h self g)
  then show ?case
    by (auto simp: add_spline_def reset_def agree_def)
next
  case (4 h self)
  then show ?case by auto
next
  case (5 h self)
  then show ?case by auto
next
  case (6 h self x xs)
  show ?case
  proof (cases "add h self x")
    case None
    with 6(4) show ?thesis by simp
  next
    case (Some p)
    obtain res1 h1 where p: "p = (res1, h1)" by (cases p)
    note IH1 = 6(1) [OF 6(3) Some [unfolded p]]
    show ?thesis
    proof (cases res1)
      case (Inl e)
      with 6(4) Some p IH1 show ?thesis
        by auto
    next
      case (Inr u)
      then have ag: "agree self h0 h1"
        using IH1 by simp
      have rest: "add_each h1 self xs = Some (res, h')"
        using 6(4) Some p Inr by simp
      note IH2 = 6(2) [OF Some [unfolded p Inr] refl refl ag rest]
      show ?thesis
        using IH1 IH2 Inr
        by (cases res) auto
    qed
  qed
qed

text \<open>
  A container built without arguments is empty, and one built from arguments holds
  their leaves.
\<close>

lemma init_no_args:
  "init h self CurveContainer [] = Some (Inr (), h(self := no_curves))"
  by (simp add: init_def no_curves_def)

lemma init_flattens:
  assumes "init h self k args = Some (Inr u, h')"
  shows "geoms (h' self) =
           concat (map (leaves (h(self := \<lparr>cls = k, geoms = [], cache_evalpts = [],
                                              iter_index = 0\<rparr>))) args)"
  using add_each_effect [OF agree_refl assms [unfolded init_def]] by simp

lemma foldl_append_evalpts:
  "foldl (\<lambda>cache g. cache @ g_evalpts g) acc gs = acc @ concat (map g_evalpts gs)"
  by (induction gs arbitrary: acc) simp_all

lemma evalpts_eq:
  "evalpts c =
     (if cache_evalpts c = [] then
        (concat (map g_evalpts (geoms c)), c\<lparr>cache_evalpts := concat (map g_evalpts (geoms c))\<rparr>)
      else (cache_evalpts c, c))"
  by (simp add: evalpts_def cache_empty_def foldl_append_evalpts Let_def)

text \<open>
  On a pool made of one box with one extent per axis, the enclosing box is that box.
  The second fact is the example of the spec: the boxes \<open>[0,1]x[0,1]\<close> and
  \<open>[2,3]x[-1,0]\<close> give \<open>[0,3]x[-1,1]\<close>.
\<close>

lemma filter_axis_distinct:
  "distinct (map axis b) \<Longrightarrow> e \<in> set b \<Longrightarrow> filter (\<lambda>e'. axis e' = axis e) b = [e]"
proof (induction b)
  case Nil
  then show ?case by simp
next
  case (Cons x b)
  show ?case
  proof (cases "e = x")
    case True
    have nx: "axis x \<notin> axis ` set b"
      using Cons.prems(1) by simp
    have "\<forall>e' \<in> set b. axis e' \<noteq> axis x"
    proof (intro ballI notI)
      fix e' assume "e' \<in> set b" and eq: "axis e' = axis x"
      then have "axis e' \<in> axis ` set b"
        by (intro imageI)
      with eq nx show False by simp
    qed
    then have "filter (\<lambda>e'. axis e' = axis x) b = []"
      by (simp add: filter_empty_conv)
    with True show ?thesis by simp
  next
    case False
    with Cons.prems have "e \<in> set b" by simp
    then have "axis x \<noteq> axis e"
      using Cons.prems(1) by auto
    with Cons \<open>e \<in> set b\<close> show ?thesis by simp
  qed
qed

lemma evaluate_bounding_box_single:
  assumes "b \<noteq> []" and "distinct (map axis b)"
  shows "evaluate_bounding_box on_empty b = Inr b"
proof -
  have "map (\<lambda>a. \<lparr>axis = a, lower = Min (set (pooled_lowers b a)),
                   upper = Max (set (pooled_uppers b a))\<rparr>) (map axis b) = map (\<lambda>e. e) b"
    unfolding map_map
  proof (rule map_cong [OF refl])
    fix e assume "e \<in> set b"
    then have f: "filter (\<lambda>e'. axis e' = axis e) b = [e]"
      by (rule filter_axis_distinct [OF assms(2)])
    show "((\<lambda>a. \<lparr>axis = a, lower = Min (set (pooled_lowers b a)),
                   upper = Max (set (pooled_uppers b a))\<rparr>) \<circ> axis) e = e"
      unfolding o_def pooled_lowers_def pooled_uppers_def f by simp
  qed
  then show ?thesis
    using assms by (simp add: evaluate_bounding_box_def distinct_remdups_id)
qed

lemma bbox_spec_example:
  "bbox (Inl EmptyContainer)
     \<lparr>cls = SurfaceContainer,
      geoms = [\<lparr>g_kind = SurfaceLike, g_evalpts = [],
                g_bbox = [\<lparr>axis = 0, lower = 0, upper = 1\<rparr>, \<lparr>axis = 1, lower = 0, upper = 1\<rparr>]\<rparr>,
               \<lparr>g_kind = SurfaceLike, g_evalpts = [],
                g_bbox = [\<lparr>axis = 0, lower = 2, upper = 3\<rparr>, \<lparr>axis = 1, lower = -1, upper = 0\<rparr>]\<rparr>],
      cache_evalpts = [], iter_index = 0\<rparr>
   = Inr [\<lparr>axis = 0, lower = 0, upper = 3\<rparr>, \<lparr>axis = 1, lower = -1, upper = 1\<rparr>]"
  by (simp add: bbox_def evaluate_bounding_box_def pooled_lowers_def pooled_uppers_def)

subsection \<open>The claims\<close>

text \<open>
  C1, as the code has it: \<^verbatim>\<open>add\<close> tests a single item against \<^verbatim>\<open>SplineGeometry\<close>
  only, and the three subclasses add nothing to it. So every container class accepts a
  spline geometry of every kind: it is appended and the cache is cleared. A single item
  is rejected with \<^verbatim>\<open>GeomdlError\<close>, and nothing is appended, only when it is not a spline
  geometry (and neither a sequence nor a container).
\<close>

theorem add_any_spline_kind:
  "add h self (Spline g) =
     Some (Inr (), h(self := (h self)\<lparr>geoms := geoms (h self) @ [g], cache_evalpts := []\<rparr>)) \<and>
   add h self Other = Some (Inl GeomdlError, h)"
  by (simp add: add_spline_def reset_def)

text \<open>
  The claim as stated fails: a surface added to a curve container is not rejected, it
  becomes the container's second element.
\<close>

theorem surface_into_curve_container:
  "cls (example_store 0) = CurveContainer \<and> g_kind surface_a = SurfaceLike \<and>
   add example_store 0 (Spline surface_a) =
     Some (Inr (), example_store(0 := \<lparr>cls = CurveContainer, geoms = [curve_a, surface_a],
                                       cache_evalpts = [], iter_index = 0\<rparr>))"
  by (simp add: example_store_def surface_a_def add_spline_def reset_def)

text \<open>
  C2, as the code has it: when \<^verbatim>\<open>add\<close> raises, the exception is \<^verbatim>\<open>GeomdlError\<close>; an
  argument that is not a sequence leaves the whole store as it was; a sequence leaves
  in the receiver, appended in order, the leaves of the items that come before the first
  rejected item, and the cache is cleared exactly when such an item exists (on any
  level of nesting), otherwise it is as before.
\<close>

theorem failed_add_effect:
  assumes "add h self x = Some (Inl e, h')"
  shows "e = GeomdlError \<and>
         geoms (h' self) = geoms (h self) @ appended_before_raise h self x \<and>
         cache_evalpts (h' self) =
           (if reset_before_raise h self x then [] else cache_evalpts (h self)) \<and>
         ((\<forall>xs. x \<noteq> Sequence xs) \<longrightarrow> h' = h)"
proof -
  have "(\<forall>xs. x \<noteq> Sequence xs) \<longrightarrow> h' = h"
    using assms by (cases x) (auto split: option.splits if_splits)
  with add_effect [OF agree_refl assms] show ?thesis
    by simp
qed

theorem failed_add_effect_witness:
  "add example_store 0 (Sequence [Spline curve_b, Other]) =
     Some (Inl GeomdlError,
           example_store(0 := \<lparr>cls = CurveContainer, geoms = [curve_a, curve_b],
                                cache_evalpts = [], iter_index = 0\<rparr>)) \<and>
   appended_before_raise example_store 0 (Sequence [Spline curve_b, Other]) = [curve_b] \<and>
   reset_before_raise example_store 0 (Sequence [Spline curve_b, Other]) \<and>
   add example_store 0 Other = Some (Inl GeomdlError, example_store)"
proof -
  let ?h' = "example_store(0 := \<lparr>cls = CurveContainer, geoms = [curve_a, curve_b],
                                cache_evalpts = [], iter_index = 0\<rparr>)"
  have run: "add example_store 0 (Sequence [Spline curve_b, Other]) = Some (Inl GeomdlError, ?h')"
    by (simp add: example_store_def add_spline_def reset_def)
  have "geoms (?h' 0) =
          geoms (example_store 0) @ appended_before_raise example_store 0 (Sequence [Spline curve_b, Other])"
    and "cache_evalpts (?h' 0) =
          (if reset_before_raise example_store 0 (Sequence [Spline curve_b, Other]) then []
           else cache_evalpts (example_store 0))"
    using failed_add_effect [OF run] by blast+
  moreover have run2: "add example_store 0 Other = Some (Inl GeomdlError, example_store)"
    by simp
  have "(\<forall>xs. Other \<noteq> Sequence xs) \<longrightarrow> example_store = example_store"
    using failed_add_effect [OF run2] by blast
  ultimately show ?thesis
    using run run2 by (simp add: example_store_def)
qed

text \<open>
  The claim as stated fails: a bulk sequence of two geometries and one rejected item
  raises, and yet both geometries have been appended and the filled cache has been
  cleared.
\<close>

theorem failed_bulk_add_keeps_prefix:
  "geoms (example_store 0) = [curve_a] \<and>
   cache_evalpts (example_store 0) = [[0, 0], [1, 0]] \<and>
   add example_store 0 (Sequence [Spline curve_b, Spline surface_a, Other]) =
     Some (Inl GeomdlError,
           example_store(0 := \<lparr>cls = CurveContainer, geoms = [curve_a, curve_b, surface_a],
                                cache_evalpts = [], iter_index = 0\<rparr>))"
  by (simp add: example_store_def add_spline_def reset_def)

text \<open>
  C3: after any sequence of insertions that all return (single geometries, containers
  of the receiver's class, sequences nested to any depth), the element sequence of the
  receiver is what it was followed by the leaf geometries of the arguments, flattened in
  order, and its length has grown by their number. The elements are geometries by type:
  no container is stored as an element.
\<close>

theorem add_each_flattens:
  assumes "add_each h self xs = Some (Inr u, h')"
  shows "geoms (h' self) = geoms (h self) @ concat (map (leaves h) xs) \<and>
         len (h' self) = len (h self) + length (concat (map (leaves h) xs))"
  using add_each_effect [OF agree_refl assms] by (simp add: len_def)

theorem add_each_flattens_witness:
  "add_each example_store 0
     [Spline curve_b, ContainerRef 1, Sequence [Spline surface_a, Sequence [Spline curve_a]]]
     = Some (Inr (),
         example_store
           (1 := \<lparr>cls = CurveContainer, geoms = [curve_b, curve_a],
                  cache_evalpts = [], iter_index = 2\<rparr>,
            0 := \<lparr>cls = CurveContainer,
                  geoms = [curve_a, curve_b, curve_b, curve_a, surface_a, curve_a],
                  cache_evalpts = [], iter_index = 0\<rparr>)) \<and>
   concat (map (leaves example_store)
     [Spline curve_b, ContainerRef 1, Sequence [Spline surface_a, Sequence [Spline curve_a]]])
     = [curve_b, curve_b, curve_a, surface_a, curve_a] \<and>
   len (example_store 0) = 1"
proof -
  let ?xs = "[Spline curve_b, ContainerRef 1, Sequence [Spline surface_a, Sequence [Spline curve_a]]]"
  let ?h' = "example_store
           (1 := \<lparr>cls = CurveContainer, geoms = [curve_b, curve_a],
                  cache_evalpts = [], iter_index = 2\<rparr>,
            0 := \<lparr>cls = CurveContainer,
                  geoms = [curve_a, curve_b, curve_b, curve_a, surface_a, curve_a],
                  cache_evalpts = [], iter_index = 0\<rparr>)"
  have run: "add_each example_store 0 ?xs = Some (Inr (), ?h')"
    by (simp add: example_store_def add_ContainerRef_other add_spline_def reset_def
        numeral_2_eq_2 del: add.simps(1))
  have "geoms (?h' 0) = geoms (example_store 0) @ concat (map (leaves example_store) ?xs)"
    and "len (?h' 0) = len (example_store 0) + length (concat (map (leaves example_store) ?xs))"
    using add_each_flattens [OF run] by blast+
  then show ?thesis
    using run by (simp add: example_store_def len_def)
qed

text \<open>
  C4, as the code has it: a second call of \<^verbatim>\<open>evalpts\<close> with nothing in between returns
  the same sequence as the first and leaves the state as the first left it. A call that
  finds the cache filled is a cache hit: it returns the cached sequence as it is, without
  reading any element. So the second call is a cache hit, with no recomputation, when
  the sequence returned is not empty; when it is empty (an empty list is how the code
  marks a cache to compute) the second call reads every element again. After any
  insertion that returns, the cache is empty, and the next call reads every current
  element and returns their evaluated points, concatenated in element order.
\<close>

theorem evalpts_cached:
  "evalpts (snd (evalpts c)) = evalpts c \<and>
   (\<not> cache_empty c \<longrightarrow> evalpts c = (cache_evalpts c, c) \<and> evalpts_reads c = []) \<and>
   evalpts_reads (snd (evalpts c)) = (if fst (evalpts c) = [] then geoms c else []) \<and>
   (add h self x = Some (Inr u, h') \<longrightarrow>
      cache_empty (h' self) \<and>
      evalpts_reads (h' self) = geoms (h' self) \<and>
      fst (evalpts (h' self)) = concat (map g_evalpts (geoms (h' self))))"
proof (intro conjI impI)
  show "evalpts (snd (evalpts c)) = evalpts c"
    by (simp add: evalpts_eq)
  show "evalpts_reads (snd (evalpts c)) = (if fst (evalpts c) = [] then geoms c else [])"
    by (auto simp: evalpts_eq evalpts_reads_def cache_empty_def)
next
  assume "\<not> cache_empty c"
  then show "evalpts c = (cache_evalpts c, c)" and "evalpts_reads c = []"
    by (simp_all add: evalpts_eq evalpts_reads_def cache_empty_def)
next
  assume "add h self x = Some (Inr u, h')"
  from add_effect [OF agree_refl this]
  have c: "cache_evalpts (h' self) = []"
    by simp
  then show "cache_empty (h' self)" and "evalpts_reads (h' self) = geoms (h' self)"
    by (simp_all add: cache_empty_def evalpts_reads_def)
  from c show "fst (evalpts (h' self)) = concat (map g_evalpts (geoms (h' self)))"
    by (simp add: evalpts_eq)
qed

theorem evalpts_cached_witness:
  "\<not> cache_empty stale_curves \<and>
   evalpts stale_curves = ([[9, 9]], stale_curves) \<and>
   evalpts_reads stale_curves = [] \<and>
   add example_store 0 (Spline curve_b) =
     Some (Inr (), example_store(0 := two_curves)) \<and>
   evalpts_reads two_curves = [curve_a, curve_b] \<and>
   fst (evalpts two_curves) = [[0, 0], [1, 0], [2, 2]] \<and>
   evalpts_reads (snd (evalpts two_curves)) = []"
proof -
  have filled: "\<not> cache_empty stale_curves"
    by (simp add: cache_empty_def stale_curves_def)
  have run: "add example_store 0 (Spline curve_b) = Some (Inr (), example_store(0 := two_curves))"
    by (simp add: example_store_def add_spline_def reset_def two_curves_def)
  note inst = evalpts_cached [of stale_curves example_store 0 "Spline curve_b" "()"
      "example_store(0 := two_curves)"]
  have hit: "evalpts stale_curves = (cache_evalpts stale_curves, stale_curves)"
    "evalpts_reads stale_curves = []"
    using inst filled by blast+
  have after: "evalpts_reads ((example_store(0 := two_curves)) 0)
                 = geoms ((example_store(0 := two_curves)) 0)"
    "fst (evalpts ((example_store(0 := two_curves)) 0))
       = concat (map g_evalpts (geoms ((example_store(0 := two_curves)) 0)))"
    using inst run by blast+
  have again: "evalpts_reads (snd (evalpts two_curves))
                 = (if fst (evalpts two_curves) = [] then geoms two_curves else [])"
    using evalpts_cached [of two_curves example_store 0 "Spline curve_b" "()"
        "example_store(0 := two_curves)"] by blast
  have pts: "fst (evalpts two_curves) = [[0, 0], [1, 0], [2, 2]]"
    using after(2) by (simp add: two_curves_def curve_a_def curve_b_def)
  from filled run hit after(1) again pts show ?thesis
    by (simp add: stale_curves_def two_curves_def)
qed

text \<open>
  The claim as stated fails on a container whose one element has no evaluated points:
  both calls return the empty sequence, but after the first call the guard of the
  property still holds, so the second call is not a cache hit: it runs the loop again and
  reads the element a second time.
\<close>

theorem evalpts_blank_recomputed:
  "fst (evalpts one_blank_curve) = [] \<and>
   cache_empty (snd (evalpts one_blank_curve)) \<and>
   evalpts_reads (snd (evalpts one_blank_curve)) = [blank_curve] \<and>
   fst (evalpts (snd (evalpts one_blank_curve))) = []"
  by (simp add: evalpts_eq evalpts_reads_def cache_empty_def one_blank_curve_def
      blank_curve_def)

text \<open>
  C5: for two containers \<open>a\<close> and \<open>b\<close> of the same class, \<^verbatim>\<open>a + b\<close> returns, its value is
  the reference \<open>a\<close> itself, the length of \<open>a\<close> is then the sum of both lengths (the
  elements of \<open>b\<close> follow those of \<open>a\<close>), the elements of \<open>b\<close> are unchanged, and no
  other object is touched.
\<close>

theorem merge_same_class:
  assumes "a \<noteq> b" and "cls (h b) = cls (h a)"
  shows "\<exists>h'. container_add h a (ContainerRef b) = Some (Inr a, h') \<and>
              len (h' a) = len (h a) + len (h b) \<and>
              geoms (h' a) = geoms (h a) @ geoms (h b) \<and>
              geoms (h' b) = geoms (h b) \<and>
              (\<forall>r. r \<noteq> a \<and> r \<noteq> b \<longrightarrow> h' r = h r)"
proof -
  have "add h a (ContainerRef b) =
          Some (Inr (), h(b := (h b)\<lparr>iter_index := length (geoms (h b))\<rparr>,
                          a := (h a)\<lparr>geoms := geoms (h a) @ geoms (h b), cache_evalpts := []\<rparr>))"
    using assms by (intro add_ContainerRef_other) auto
  then show ?thesis
    using assms by (simp add: container_add_def isinstance_container_def len_def)
qed

theorem merge_same_class_witness:
  "(0::nat) \<noteq> 1 \<and> cls (example_store 1) = cls (example_store 0) \<and>
   container_add example_store 0 (ContainerRef 1) =
     Some (Inr 0, example_store
           (1 := \<lparr>cls = CurveContainer, geoms = [curve_b, curve_a],
                  cache_evalpts = [], iter_index = 2\<rparr>,
            0 := \<lparr>cls = CurveContainer, geoms = [curve_a, curve_b, curve_a],
                  cache_evalpts = [], iter_index = 0\<rparr>))"
proof -
  have d: "(0::nat) \<noteq> 1" by simp
  have k: "cls (example_store 1) = cls (example_store 0)"
    by (simp add: example_store_def)
  from merge_same_class [OF d k]
  obtain h' where "container_add example_store 0 (ContainerRef 1) = Some (Inr 0, h')"
    by blast
  moreover have "container_add example_store 0 (ContainerRef 1) =
     Some (Inr 0, example_store
           (1 := \<lparr>cls = CurveContainer, geoms = [curve_b, curve_a],
                  cache_evalpts = [], iter_index = 2\<rparr>,
            0 := \<lparr>cls = CurveContainer, geoms = [curve_a, curve_b, curve_a],
                  cache_evalpts = [], iter_index = 0\<rparr>))"
    by (simp add: container_add_def isinstance_container_def add_ContainerRef_other
        example_store_def numeral_2_eq_2 del: add.simps(1))
  ultimately show ?thesis
    using d k by simp
qed

text \<open>
  C6: a container of another class passed to \<^verbatim>\<open>add\<close> or to \<^verbatim>\<open>__add__\<close> raises
  \<^verbatim>\<open>GeomdlError\<close> and the store, so the receiver's elements and cache, is unchanged.
\<close>

theorem other_class_rejected:
  assumes "cls (h r) \<noteq> cls (h self)"
  shows "add h self (ContainerRef r) = Some (Inl GeomdlError, h) \<and>
         container_add h self (ContainerRef r) = Some (Inl GeomdlError, h)"
  using assms by (simp add: container_add_def isinstance_container_def)

theorem other_class_rejected_witness:
  "cls (example_store 2) \<noteq> cls (example_store 0) \<and>
   add example_store 0 (ContainerRef 2) = Some (Inl GeomdlError, example_store) \<and>
   container_add example_store 0 (ContainerRef 2) = Some (Inl GeomdlError, example_store)"
proof -
  have k: "cls (example_store 2) \<noteq> cls (example_store 0)"
    by (simp add: example_store_def)
  from other_class_rejected [OF k] k show ?thesis
    by simp
qed

text \<open>
  C7: indexing a container at its length, one position past the last element, raises
  \<^verbatim>\<open>IndexError\<close>, and indexing at any \<open>i\<close> below the length returns the \<open>i\<close>-th
  element of the element sequence.
\<close>

theorem getitem_at_len_and_below:
  "getitem c (int (len c)) = Inl IndexError \<and>
   (\<forall>i < len c. getitem c (int i) = Inr (geoms c ! i))"
  by (simp add: getitem_def len_def list_getitem_nat)

theorem getitem_at_len_and_below_witness:
  "getitem two_curves 2 = Inl IndexError \<and> getitem two_curves 1 = Inr curve_b"
proof -
  have l: "len two_curves = 2"
    by (simp add: len_def two_curves_def)
  have "getitem two_curves (int (len two_curves)) = Inl IndexError"
    using getitem_at_len_and_below [of two_curves] by blast
  moreover have "getitem two_curves (int 1) = Inr (geoms two_curves ! 1)"
    using getitem_at_len_and_below [of two_curves, THEN conjunct2, rule_format, of 1] l
    by simp
  ultimately show ?thesis
    using l by (simp add: two_curves_def)
qed

text \<open>
  C8: a full forward traversal produces the elements in order and the reverse traversal
  produces them in reverse order, so each is the reverse of the other; the forward
  traversal leaves the elements and the cache as they were (it moves the cursor only),
  and the reverse traversal touches no state at all.
\<close>

theorem iterate_reversed:
  "fst (iterate c) = rev (container_reversed c) \<and>
   container_reversed c = rev (fst (iterate c)) \<and>
   geoms (snd (iterate c)) = geoms c \<and>
   cache_evalpts (snd (iterate c)) = cache_evalpts c"
  by (simp add: iterate_def iterate_from_eq container_reversed_def container_iter_def)

text \<open>
  C9: on a container with exactly one element, whose own box has at least one axis and
  one extent per axis, \<^verbatim>\<open>bbox\<close> is that element's box, whatever the policy for an
  empty pool.
\<close>

theorem bbox_single_element:
  assumes "geoms c = [g]" and "g_bbox g \<noteq> []" and "distinct (map axis (g_bbox g))"
  shows "bbox on_empty c = Inr (g_bbox g)"
  using assms by (simp add: bbox_def evaluate_bounding_box_single)

theorem bbox_single_element_witness:
  "geoms one_surface = [surface_a] \<and> g_bbox surface_a \<noteq> [] \<and>
   distinct (map axis (g_bbox surface_a)) \<and>
   bbox (Inl EmptyContainer) one_surface =
     Inr [\<lparr>axis = 0, lower = 0, upper = 3\<rparr>, \<lparr>axis = 1, lower = - 1, upper = 1\<rparr>,
          \<lparr>axis = 2, lower = 5, upper = 5\<rparr>]"
proof -
  have g: "geoms one_surface = [surface_a]"
    by (simp add: one_surface_def)
  have n: "g_bbox surface_a \<noteq> []"
    by (simp add: surface_a_def)
  have d: "distinct (map axis (g_bbox surface_a))"
    by (simp add: surface_a_def)
  from bbox_single_element [OF g n d, of "Inl EmptyContainer"] g n d show ?thesis
    by (simp add: surface_a_def)
qed

text \<open>
  C10: on a container with \<open>n \<ge> 1\<close> elements, index \<open>-1\<close> does not raise but returns the
  last element, and index \<open>-k\<close> for \<open>1 \<le> k \<le> n\<close> returns the element at position
  \<open>n - k\<close>.
\<close>

theorem getitem_negative:
  "1 \<le> len c \<Longrightarrow>
   getitem c (- 1) = Inr (last (geoms c)) \<and>
   (\<forall>k. 1 \<le> k \<and> k \<le> len c \<longrightarrow> getitem c (- int k) = Inr (geoms c ! (len c - k)))"
proof (intro conjI allI impI)
  assume n: "1 \<le> len c"
  then have ne: "geoms c \<noteq> []"
    by (auto simp: len_def)
  have "nat (- 1 + int (length (geoms c))) = length (geoms c) - 1"
    by simp
  with n ne show "getitem c (- 1) = Inr (last (geoms c))"
    by (simp add: getitem_def list_getitem_def len_def last_conv_nth)
next
  fix k
  assume k: "1 \<le> k \<and> k \<le> len c"
  then have "nat (- int k + int (length (geoms c))) = length (geoms c) - k"
    by (simp add: len_def)
  with k show "getitem c (- int k) = Inr (geoms c ! (len c - k))"
    by (simp add: getitem_def list_getitem_def len_def)
qed

theorem getitem_negative_witness:
  "1 \<le> len two_curves \<and> getitem two_curves (- 1) = Inr curve_b \<and>
   getitem two_curves (- 2) = Inr curve_a"
proof -
  have l: "len two_curves = 2"
    by (simp add: len_def two_curves_def)
  then have n: "1 \<le> len two_curves"
    by simp
  have "getitem two_curves (- 1) = Inr (last (geoms two_curves))"
    using getitem_negative [OF n] by blast
  moreover have "getitem two_curves (- int 2) = Inr (geoms two_curves ! (len two_curves - 2))"
    using getitem_negative [OF n, THEN conjunct2, rule_format, of 2] l by simp
  ultimately show ?thesis
    using l by (simp add: two_curves_def)
qed

end
